theory Spec2Isabelle
  imports Complex_Main "HOL-Library.Multiset"
begin

section \<open>Floating-point values as the program sees them\<close>

text \<open>
  The script \<^verbatim>\<open>time_series_analysis.py\<close> computes with Python floats and numpy
  \<^verbatim>\<open>float64\<close> values. The properties verified below depend on how NaN and the
  infinities behave (a mean over an empty list is NaN, every comparison with NaN is
  false, a division by zero does not raise but gives NaN or an infinity), so these
  special values are part of the model. Finite values are real numbers: rounding is
  not modelled, and the two zeros \<^verbatim>\<open>0.0\<close> and \<^verbatim>\<open>-0.0\<close> are one value (both are
  falsy in Python, and they compare equal).
\<close>

datatype npfloat = NaN | PInf | NInf | Fin real

fun isnan :: "npfloat \<Rightarrow> bool" where
  "isnan NaN = True"
| "isnan _ = False"

fun fneg :: "npfloat \<Rightarrow> npfloat" where
  "fneg NaN = NaN"
| "fneg PInf = NInf"
| "fneg NInf = PInf"
| "fneg (Fin x) = Fin (- x)"

fun fadd :: "npfloat \<Rightarrow> npfloat \<Rightarrow> npfloat" where
  "fadd (Fin x) (Fin y) = Fin (x + y)"
| "fadd NaN _ = NaN"
| "fadd _ NaN = NaN"
| "fadd PInf NInf = NaN"
| "fadd NInf PInf = NaN"
| "fadd PInf _ = PInf"
| "fadd _ PInf = PInf"
| "fadd NInf _ = NInf"
| "fadd _ NInf = NInf"

definition fsub :: "npfloat \<Rightarrow> npfloat \<Rightarrow> npfloat" where
  "fsub a b = fadd a (fneg b)"

text \<open>The infinity with the sign of a real number; \<open>0 * inf\<close> and \<open>0 / 0\<close> are NaN.\<close>

definition inf_sign :: "real \<Rightarrow> npfloat" where
  "inf_sign x = (if 0 < x then PInf else if x < 0 then NInf else NaN)"

fun fmul :: "npfloat \<Rightarrow> npfloat \<Rightarrow> npfloat" where
  "fmul (Fin x) (Fin y) = Fin (x * y)"
| "fmul NaN _ = NaN"
| "fmul _ NaN = NaN"
| "fmul PInf PInf = PInf"
| "fmul PInf NInf = NInf"
| "fmul NInf PInf = NInf"
| "fmul NInf NInf = PInf"
| "fmul PInf (Fin y) = inf_sign y"
| "fmul NInf (Fin y) = inf_sign (- y)"
| "fmul (Fin x) PInf = inf_sign x"
| "fmul (Fin x) NInf = inf_sign (- x)"

text \<open>
  numpy's true division: a finite value divided by zero is an infinity with the sign of
  the numerator, \<open>0 / 0\<close> is NaN (a RuntimeWarning is printed, nothing is raised).
\<close>

fun fdiv :: "npfloat \<Rightarrow> npfloat \<Rightarrow> npfloat" where
  "fdiv (Fin x) (Fin y) = (if y = 0 then inf_sign x else Fin (x / y))"
| "fdiv NaN _ = NaN"
| "fdiv _ NaN = NaN"
| "fdiv (Fin x) PInf = Fin 0"
| "fdiv (Fin x) NInf = Fin 0"
| "fdiv PInf (Fin y) = (if y < 0 then NInf else PInf)"
| "fdiv NInf (Fin y) = (if y < 0 then PInf else NInf)"
| "fdiv PInf PInf = NaN"
| "fdiv PInf NInf = NaN"
| "fdiv NInf PInf = NaN"
| "fdiv NInf NInf = NaN"

fun fsqrt :: "npfloat \<Rightarrow> npfloat" where
  "fsqrt NaN = NaN"
| "fsqrt PInf = PInf"
| "fsqrt NInf = NaN"
| "fsqrt (Fin x) = (if x < 0 then NaN else Fin (sqrt x))"

text \<open>The comparison \<^verbatim>\<open>a < b\<close>: false whenever one side is NaN.\<close>

fun fless :: "npfloat \<Rightarrow> npfloat \<Rightarrow> bool" where
  "fless (Fin x) (Fin y) = (x < y)"
| "fless NaN _ = False"
| "fless _ NaN = False"
| "fless PInf _ = False"
| "fless _ NInf = False"
| "fless NInf _ = True"
| "fless (Fin x) PInf = True"

text \<open>\<^verbatim>\<open>a > b\<close>, \<^verbatim>\<open>a >= b\<close> and \<^verbatim>\<open>a == b\<close>; NaN is not equal to itself.\<close>

definition fgreater :: "npfloat \<Rightarrow> npfloat \<Rightarrow> bool" where
  "fgreater a b = fless b a"

definition fge :: "npfloat \<Rightarrow> npfloat \<Rightarrow> bool" where
  "fge a b = (\<not> isnan a \<and> \<not> isnan b \<and> \<not> fless a b)"

definition feq :: "npfloat \<Rightarrow> npfloat \<Rightarrow> bool" where
  "feq a b = (\<not> isnan a \<and> a = b)"

text \<open>
  Python's truth value of a float (\<^verbatim>\<open>if i\<close>): false exactly for zero. NaN and the
  infinities are truthy. A list entry of the script is a float or \<^verbatim>\<open>None\<close>, modelled
  as \<open>npfloat option\<close>; \<^verbatim>\<open>None\<close> is falsy.
\<close>

definition truthy :: "npfloat \<Rightarrow> bool" where
  "truthy x = (x \<noteq> Fin 0)"

definition truthy_opt :: "npfloat option \<Rightarrow> bool" where
  "truthy_opt v = (case v of None \<Rightarrow> False | Some x \<Rightarrow> truthy x)"

text \<open>
  \<^verbatim>\<open>np.mean\<close> of a list is its sum divided by its length; for the empty list this is
  \<open>0 / 0\<close>, NaN. \<^verbatim>\<open>np.var\<close> is the mean of the squared deviations from the mean (the
  population variance, \<^verbatim>\<open>ddof=0\<close>).
\<close>

definition np_sum :: "npfloat list \<Rightarrow> npfloat" where
  "np_sum xs = foldr fadd xs (Fin 0)"

definition np_mean :: "npfloat list \<Rightarrow> npfloat" where
  "np_mean xs = fdiv (np_sum xs) (Fin (real (length xs)))"

definition np_var :: "npfloat list \<Rightarrow> npfloat" where
  "np_var xs = (let m = np_mean xs in np_mean (map (\<lambda>x. fmul (fsub x m) (fsub x m)) xs))"

section \<open>The mean-shift series\<close>

text \<open>
  \<^verbatim>\<open>compute_mean_shift(time_series, j, compare_to)\<close>: both list comprehensions keep the
  truthy entries of their slice only.
\<close>

definition compute_mean_shift :: "npfloat list \<Rightarrow> nat \<Rightarrow> string \<Rightarrow> npfloat" where
  "compute_mean_shift time_series j compare_to =
     (if compare_to = ''first''
      then fsub (np_mean (filter truthy (drop (j + 1) time_series)))
                (np_mean (filter truthy (take (j + 1) time_series)))
      else fsub (np_mean (filter truthy (take (j + 1) time_series)))
                (np_mean (filter truthy (drop (j + 1) time_series))))"

text \<open>\<^verbatim>\<open>get_mean_shift_series\<close>: one entry for each \<open>j\<close> in \<^verbatim>\<open>range(len(time_series)-1)\<close>.\<close>

definition get_mean_shift_series :: "npfloat list \<Rightarrow> string \<Rightarrow> npfloat list" where
  "get_mean_shift_series time_series compare_to =
     map (\<lambda>j. compute_mean_shift time_series j compare_to) [0..<length time_series - 1]"

section \<open>Compaction in \<^verbatim>\<open>detect_change_point\<close>\<close>

datatype py_error = IndexError | ValueError | UnboundLocalError

text \<open>
  Line 143: \<^verbatim>\<open>[time_slice_labels[i] for i in range(len(time_slice_labels)) if z_score_series[i]]\<close>.
  Reading \<^verbatim>\<open>z_score_series[i]\<close> past the end of a shorter series raises IndexError.
\<close>

definition notNone_time_slice_labels ::
    "string list \<Rightarrow> npfloat option list \<Rightarrow> py_error + string list" where
  "notNone_time_slice_labels time_slice_labels z_score_series =
     (if length z_score_series < length time_slice_labels then Inl IndexError
      else Inr (map (\<lambda>i. time_slice_labels ! i)
                  (filter (\<lambda>i. truthy_opt (z_score_series ! i)) [0..<length time_slice_labels])))"

text \<open>Line 147: \<^verbatim>\<open>z_score_series = [i for i in z_score_series if i]\<close>.\<close>

definition compacted :: "npfloat option list \<Rightarrow> npfloat list" where
  "compacted z_score_series = map the (filter truthy_opt z_score_series)"

section \<open>The permutation test\<close>

text \<open>
  \<^verbatim>\<open>np.random.permutation\<close> is the program's only source of randomness. It is a
  parameter of the model: \<open>permutation i zs\<close> is the array returned by the call in
  iteration \<open>i\<close> of the sampling loop. numpy returns a rearrangement of its argument;
  the theorems that need this say so in a hypothesis. The parameter \<open>word\<close> is only
  printed by the source (line 126).

  Lines 123 to 132, the loop over \<open>x\<close> for one permuted series: the counter at \<open>x\<close> is
  incremented when the original mean-shift at \<open>x\<close> is NaN, or else when the permuted
  mean-shift at \<open>x\<close> is greater than it.
\<close>

definition count_trial :: "npfloat list \<Rightarrow> npfloat list \<Rightarrow> npfloat list \<Rightarrow> npfloat list" where
  "count_trial mean_shift_series mean_shift_permuted_series p_value_series =
     fold (\<lambda>x p.
             if isnan (mean_shift_series ! x) then p[x := fadd (p ! x) (Fin 1)]
             else if fgreater (mean_shift_permuted_series ! x) (mean_shift_series ! x)
               then p[x := fadd (p ! x) (Fin 1)]
             else p)
          [0..<length mean_shift_permuted_series] p_value_series"

text \<open>
  The condition under which the loop body increments the counter at \<open>x\<close> (the test of
  line 125 or else the test of line 131).
\<close>

definition exceeds :: "npfloat list \<Rightarrow> npfloat list \<Rightarrow> nat \<Rightarrow> bool" where
  "exceeds mean_shift_series mean_shift_permuted_series x =
     (isnan (mean_shift_series ! x)
      \<or> fgreater (mean_shift_permuted_series ! x) (mean_shift_series ! x))"

text \<open>
  \<^verbatim>\<open>get_p_value_series\<close>. The inner loop runs over the indices of the permuted
  mean-shift series and reads the original series at each of them: a permuted series
  longer than the original one raises IndexError. After \<^verbatim>\<open>range(n_samples)\<close>
  iterations (none when \<open>n_samples \<le> 0\<close>) every counter is divided by \<open>n_samples\<close>.
\<close>

definition get_p_value_series ::
    "(nat \<Rightarrow> npfloat list \<Rightarrow> npfloat list) \<Rightarrow> string \<Rightarrow> npfloat list \<Rightarrow> int \<Rightarrow>
     npfloat list \<Rightarrow> string \<Rightarrow> py_error + npfloat list" where
  "get_p_value_series permutation word mean_shift_series n_samples z_score_series compare_to =
     (if list_ex (\<lambda>i. length mean_shift_series
                        < length (get_mean_shift_series (permutation i z_score_series) compare_to))
           [0..<nat n_samples]
      then Inl IndexError
      else Inr (map (\<lambda>v. fdiv v (Fin (real_of_int n_samples)))
             (fold (\<lambda>i p. count_trial mean_shift_series
                              (get_mean_shift_series (permutation i z_score_series) compare_to) p)
                   [0..<nat n_samples]
                   (replicate (length mean_shift_series) (Fin 0)))))"

section \<open>The change-point detector\<close>

text \<open>
  Lines 154 to 156, the magnitude gate: the p-value at \<open>i\<close> becomes 1 when the z-score at
  \<open>i\<close> is less than the gamma threshold. In \<^verbatim>\<open>detect_change_point\<close> the p-value series
  is shorter than the z-score series, so every read is in range.
\<close>

definition magnitude_gate :: "npfloat list \<Rightarrow> npfloat \<Rightarrow> npfloat list \<Rightarrow> npfloat list" where
  "magnitude_gate z_score_series gamma_threshold p_value_series =
     fold (\<lambda>i p. if fless (z_score_series ! i) gamma_threshold then p[i := Fin 1] else p)
          [0..<length p_value_series] p_value_series"

text \<open>
  Lines 147 to 156 of \<^verbatim>\<open>detect_change_point\<close>: from the z-score series as given to the
  gated p-value series.
\<close>

definition gated_p_value_series ::
    "(nat \<Rightarrow> npfloat list \<Rightarrow> npfloat list) \<Rightarrow> string \<Rightarrow> npfloat option list \<Rightarrow> int \<Rightarrow>
     npfloat \<Rightarrow> string \<Rightarrow> py_error + npfloat list" where
  "gated_p_value_series permutation word z_score_series n_samples gamma_threshold compare_to =
     (let z = compacted z_score_series;
          mean_shift_series = get_mean_shift_series z compare_to
      in case get_p_value_series permutation word mean_shift_series n_samples z compare_to of
           Inl e \<Rightarrow> Inl e
         | Inr p \<Rightarrow> Inr (magnitude_gate z gamma_threshold p))"

text \<open>
  \<^verbatim>\<open>p_value_series.min()\<close>: numpy's minimum is NaN as soon as one entry is NaN, and
  raises ValueError on an empty array (the result \<open>None\<close> here).
\<close>

definition fmin :: "npfloat \<Rightarrow> npfloat \<Rightarrow> npfloat" where
  "fmin a b = (if isnan a \<or> isnan b then NaN else if fless b a then b else a)"

fun np_min :: "npfloat list \<Rightarrow> npfloat option" where
  "np_min [] = None"
| "np_min (x # xs) = Some (fold (\<lambda>y m. fmin m y) xs x)"

text \<open>
  Python's \<^verbatim>\<open>max(items, key=...)\<close> on a non-empty list: the first item is the
  candidate, and a later item replaces the candidate when its key is greater
  (\<^verbatim>\<open>>\<close>) than the candidate's key.
\<close>

fun py_max_key :: "('a \<Rightarrow> npfloat) \<Rightarrow> 'a \<Rightarrow> 'a list \<Rightarrow> 'a" where
  "py_max_key key best [] = best"
| "py_max_key key best (x # xs) =
     py_max_key key (if fgreater (key x) (key best) then x else best) xs"

type_synonym change_point = "string \<times> string \<times> npfloat \<times> npfloat \<times> npfloat"

text \<open>
  Lines 158 to 185, the selection. The \<^verbatim>\<open>try\<close> block catches the ValueError of the
  minimum of an empty array and prints; it assigns nothing to \<^verbatim>\<open>min_p_val\<close>, so the
  comparison on line 171 then raises UnboundLocalError. \<^verbatim>\<open>max\<close> of an empty list of
  indices would raise ValueError, and reading a label past the end raises IndexError.
\<close>

definition select_change_point ::
    "string \<Rightarrow> string list \<Rightarrow> npfloat list \<Rightarrow> npfloat list \<Rightarrow> npfloat list \<Rightarrow> npfloat \<Rightarrow>
     py_error + change_point option" where
  "select_change_point word labels z_score_series mean_shift_series p_value_series
       p_value_threshold =
     (case np_min p_value_series of
        None \<Rightarrow> Inl UnboundLocalError
      | Some min_p_val \<Rightarrow>
          if fless min_p_val p_value_threshold then
            (case filter (\<lambda>i. feq (p_value_series ! i) min_p_val) [0..<length p_value_series] of
               [] \<Rightarrow> Inl ValueError
             | i # indices \<Rightarrow>
                 (let change_point = py_max_key (\<lambda>i. mean_shift_series ! i) i indices;
                      mean_shift = mean_shift_series ! change_point
                  in if change_point < length z_score_series \<and> change_point < length labels
                     then Inr (Some (word, labels ! change_point, min_p_val, mean_shift,
                                     z_score_series ! change_point))
                     else Inl IndexError))
          else Inr None)"

text \<open>\<^verbatim>\<open>detect_change_point\<close>, lines 138 to 187.\<close>

definition detect_change_point ::
    "(nat \<Rightarrow> npfloat list \<Rightarrow> npfloat list) \<Rightarrow> string \<Rightarrow> string list \<Rightarrow> npfloat option list \<Rightarrow>
     int \<Rightarrow> npfloat \<Rightarrow> npfloat \<Rightarrow> string \<Rightarrow> py_error + change_point option" where
  "detect_change_point permutation word time_slice_labels z_score_series n_samples
       p_value_threshold gamma_threshold compare_to =
     (case notNone_time_slice_labels time_slice_labels z_score_series of
        Inl e \<Rightarrow> Inl e
      | Inr labels \<Rightarrow>
          if labels \<noteq> [] then
            (case gated_p_value_series permutation word z_score_series n_samples
                    gamma_threshold compare_to of
               Inl e \<Rightarrow> Inl e
             | Inr p_value_series \<Rightarrow>
                 select_change_point word labels (compacted z_score_series)
                   (get_mean_shift_series (compacted z_score_series) compare_to)
                   p_value_series p_value_threshold)
          else Inr None)"

section \<open>Distances and z-scores of one time slice\<close>

text \<open>
  \<^verbatim>\<open>get_dist_dict\<close> works on two embedding models through functions of the module
  \<^verbatim>\<open>hamilton_semantic_change_measures\<close> and of gensim, which are parameters here: for a
  pair of models, which words each of them contains, and the two distance measures of
  a word. \<open>loaded\<close> is the pair as loaded, \<open>aligned\<close> the pair after
  \<^verbatim>\<open>smart_procrustes_align_gensim\<close> (lines 41 to 43). A dictionary is an association
  list in insertion order, its keys distinct (\<^verbatim>\<open>vocab\<close> is a set).
\<close>

record model_pair =
  in_reference :: "string \<Rightarrow> bool"
  in_model :: "string \<Rightarrow> bool"
  cosine :: "string \<Rightarrow> npfloat"
  measure_semantic_shift_by_neighborhood :: "string \<Rightarrow> npfloat"

definition get_dist_dict ::
    "model_pair \<Rightarrow> model_pair \<Rightarrow> string list \<Rightarrow> string \<Rightarrow> string \<Rightarrow>
     (string \<times> npfloat option) list" where
  "get_dist_dict loaded aligned vocab distance_measure training_mode =
     (let m = (if distance_measure = ''cosine'' \<and> training_mode = ''independent''
               then aligned else loaded)
      in map (\<lambda>word.
                (word,
                 if in_reference m word \<and> in_model m word then
                   (if distance_measure = ''cosine'' then Some (cosine m word)
                    else Some (measure_semantic_shift_by_neighborhood m word))
                 else None))
             vocab)"

text \<open>
  \<^verbatim>\<open>get_z_score_dict\<close>: the mean and the variance are taken over the values \<open>i\<close> that
  pass \<^verbatim>\<open>if i\<close>, and a word is standardized when its value passes
  \<^verbatim>\<open>if dist_dict[word]\<close>.
\<close>

definition get_z_score_dict ::
    "(string \<times> npfloat option) list \<Rightarrow> (string \<times> npfloat option) list" where
  "get_z_score_dict dist_dict =
     (let vals = map the (filter truthy_opt (map snd dist_dict));
          mean = np_mean vals;
          var = np_var vals
      in map (\<lambda>(word, d).
                (word, if truthy_opt d then Some (fdiv (fsub (the d) mean) (fsqrt var))
                       else None))
             dist_dict)"

section \<open>Collecting and ranking the results\<close>

text \<open>
  \<^verbatim>\<open>sorted(results, key=...)\<close> is a stable sort that compares keys with \<^verbatim>\<open><\<close>. It is
  modelled by a stable insertion sort: an item goes before the first item whose key is
  greater than its own. On keys without NaN every stable sort returns this list.
\<close>

fun insort_by :: "('a \<Rightarrow> npfloat) \<Rightarrow> 'a \<Rightarrow> 'a list \<Rightarrow> 'a list" where
  "insort_by key x [] = [x]"
| "insort_by key x (y # ys) =
     (if fless (key x) (key y) then x # y # ys else y # insort_by key x ys)"

definition py_sorted :: "('a \<Rightarrow> npfloat) \<Rightarrow> 'a list \<Rightarrow> 'a list" where
  "py_sorted key xs = fold (insort_by key) xs []"

text \<open>Lines 373 to 380: the ranking by \<^verbatim>\<open>options.rank_by\<close>.\<close>

definition rank_results :: "string \<Rightarrow> change_point list \<Rightarrow> change_point list" where
  "rank_results rank_by results =
     (if rank_by = ''z_score'' then py_sorted (\<lambda>(w, t, p, m, z). fneg z) results
      else if rank_by = ''mean_shift'' then py_sorted (\<lambda>(w, t, p, m, z). fneg m) results
      else py_sorted (\<lambda>(w, t, p, m, z). p) (py_sorted (\<lambda>(w, t, p, m, z). fneg m) results))"

text \<open>
  Lines 364 to 371: the loop over the vocabulary. \<open>series\<close> lists each word with its
  z-score series (line 367), in the order of the loop; \<open>permutation i\<close> gives the
  permutations drawn while word number \<open>i\<close> is processed. An exception of
  \<^verbatim>\<open>detect_change_point\<close> is not caught and ends the run.
\<close>

fun change_points ::
    "(nat \<Rightarrow> nat \<Rightarrow> npfloat list \<Rightarrow> npfloat list) \<Rightarrow> nat \<Rightarrow> string list \<Rightarrow>
     (string \<times> npfloat option list) list \<Rightarrow> int \<Rightarrow> npfloat \<Rightarrow> npfloat \<Rightarrow> string \<Rightarrow>
     py_error + change_point list" where
  "change_points permutation i labels [] n_samples p_value_threshold gamma_threshold compare_to =
     Inr []"
| "change_points permutation i labels ((word, z_score_series) # rest) n_samples
       p_value_threshold gamma_threshold compare_to =
     (case detect_change_point (permutation i) word labels z_score_series n_samples
             p_value_threshold gamma_threshold compare_to of
        Inl e \<Rightarrow> Inl e
      | Inr change_point \<Rightarrow>
          (case change_points permutation (i + 1) labels rest n_samples p_value_threshold
                  gamma_threshold compare_to of
             Inl e \<Rightarrow> Inl e
           | Inr results \<Rightarrow>
               Inr (case change_point of None \<Rightarrow> results | Some r \<Rightarrow> r # results)))"

definition ranked_change_points ::
    "(nat \<Rightarrow> nat \<Rightarrow> npfloat list \<Rightarrow> npfloat list) \<Rightarrow> string list \<Rightarrow>
     (string \<times> npfloat option list) list \<Rightarrow> int \<Rightarrow> npfloat \<Rightarrow> npfloat \<Rightarrow> string \<Rightarrow> string \<Rightarrow>
     py_error + change_point list" where
  "ranked_change_points permutation labels series n_samples p_value_threshold gamma_threshold
       compare_to rank_by =
     (case change_points permutation 0 labels series n_samples p_value_threshold
             gamma_threshold compare_to of
        Inl e \<Rightarrow> Inl e
      | Inr results \<Rightarrow> Inr (rank_results rank_by results))"

section \<open>What the mean-shift series averages\<close>

lemma truthy_compacted: "x \<in> set (compacted zs) \<Longrightarrow> truthy x"
  by (auto simp: compacted_def truthy_opt_def split: option.splits)

lemma filter_truthy_take: "filter truthy (take n (compacted zs)) = take n (compacted zs)"
  by (rule filter_True) (auto dest: in_set_takeD truthy_compacted)

lemma filter_truthy_drop: "filter truthy (drop n (compacted zs)) = drop n (compacted zs)"
  by (rule filter_True) (auto dest: in_set_dropD truthy_compacted)

lemma length_get_mean_shift_series [simp]:
  "length (get_mean_shift_series ts c) = length ts - 1"
  by (simp add: get_mean_shift_series_def)

lemma nth_get_mean_shift_series:
  "j < length ts - 1 \<Longrightarrow> get_mean_shift_series ts c ! j = compute_mean_shift ts j c"
  by (simp add: get_mean_shift_series_def)

lemma np_mean_Nil: "np_mean [] = NaN"
  by (simp add: np_mean_def np_sum_def inf_sign_def)

lemma fsub_NaN: "fsub NaN x = NaN" "fsub x NaN = NaN"
  by (cases x; simp add: fsub_def)+

text \<open>
  What \<^verbatim>\<open>compute_mean_shift\<close> does on any series: each mean is over the truthy
  values of its slice, and when one of the two slices has no truthy value (it is empty,
  or all its values are 0.0) the mean-shift is NaN.
\<close>

lemma compute_mean_shift_empty_side:
  "filter truthy (take (j + 1) ts) = [] \<or> filter truthy (drop (j + 1) ts) = [] \<Longrightarrow>
   compute_mean_shift ts j c = NaN"
  by (auto simp: compute_mean_shift_def np_mean_Nil fsub_NaN)

text \<open>
  Inside the detector the series is the compacted one, from which the compaction has
  already removed every 0.0: there the filter removes nothing.
\<close>

lemma mean_shift_series_zero_free:
  "j < length (compacted zs) - 1 \<Longrightarrow>
   get_mean_shift_series (compacted zs) c ! j =
     (if c = ''first''
      then fsub (np_mean (drop (j + 1) (compacted zs))) (np_mean (take (j + 1) (compacted zs)))
      else fsub (np_mean (take (j + 1) (compacted zs))) (np_mean (drop (j + 1) (compacted zs))))"
  by (simp add: nth_get_mean_shift_series compute_mean_shift_def filter_truthy_take
        filter_truthy_drop)


section \<open>The loops of the permutation test and of the gate\<close>

text \<open>A loop over indices that updates position i only.\<close>

lemma fold_upt_pointwise:
  fixes upd :: "nat \<Rightarrow> 'a \<Rightarrow> 'a"
  assumes "n \<le> length p"
  shows "length (fold (\<lambda>i q. q[i := upd i (q ! i)]) [0..<n] p) = length p \<and>
         (\<forall>j < length p. fold (\<lambda>i q. q[i := upd i (q ! i)]) [0..<n] p ! j
              = (if j < n then upd j (p ! j) else p ! j))"
  using assms
proof (induction n)
  case 0
  then show ?case by simp
next
  case (Suc n)
  then have IH: "length (fold (\<lambda>i q. q[i := upd i (q ! i)]) [0..<n] p) = length p"
    "\<And>j. j < length p \<Longrightarrow> fold (\<lambda>i q. q[i := upd i (q ! i)]) [0..<n] p ! j
              = (if j < n then upd j (p ! j) else p ! j)"
    by simp_all
  show ?case
    using Suc.prems by (auto simp: IH nth_list_update less_Suc_eq)
qed

lemma magnitude_gate_eq:
  "magnitude_gate z g p = fold (\<lambda>i q. q[i := (if fless (z ! i) g then Fin 1 else q ! i)]) [0..<length p] p"
proof -
  have "(\<lambda>i q. if fless (z ! i) g then q[i := Fin 1] else q)
      = (\<lambda>i q. q[i := (if fless (z ! i) g then Fin 1 else q ! i)])"
    by (auto simp: fun_eq_iff)
  then show ?thesis by (simp add: magnitude_gate_def)
qed

lemma length_magnitude_gate [simp]: "length (magnitude_gate z g p) = length p"
  using fold_upt_pointwise [of "length p" p "\<lambda>i v. if fless (z ! i) g then Fin 1 else v"]
  by (simp add: magnitude_gate_eq)

lemma nth_magnitude_gate:
  "j < length p \<Longrightarrow> magnitude_gate z g p ! j = (if fless (z ! j) g then Fin 1 else p ! j)"
  using fold_upt_pointwise [of "length p" p "\<lambda>i v. if fless (z ! i) g then Fin 1 else v"]
  by (simp add: magnitude_gate_eq)

lemma count_trial_eq:
  "count_trial ms msp p =
     fold (\<lambda>x q. q[x := (if exceeds ms msp x then fadd (q ! x) (Fin 1) else q ! x)]) [0..<length msp] p"
proof -
  have "(\<lambda>x p. if isnan (ms ! x) then p[x := fadd (p ! x) (Fin 1)]
             else if fgreater (msp ! x) (ms ! x) then p[x := fadd (p ! x) (Fin 1)] else p)
      = (\<lambda>x q. q[x := (if exceeds ms msp x then fadd (q ! x) (Fin 1) else q ! x)])"
    by (auto simp: fun_eq_iff exceeds_def)
  then show ?thesis by (simp add: count_trial_def)
qed

lemma length_count_trial: "length msp \<le> length p \<Longrightarrow> length (count_trial ms msp p) = length p"
  using fold_upt_pointwise [of "length msp" p "\<lambda>x v. if exceeds ms msp x then fadd v (Fin 1) else v"]
  by (simp add: count_trial_eq)

lemma nth_count_trial:
  "length msp \<le> length p \<Longrightarrow> j < length p \<Longrightarrow>
   count_trial ms msp p ! j = (if j < length msp \<and> exceeds ms msp j then fadd (p ! j) (Fin 1) else p ! j)"
  using fold_upt_pointwise [of "length msp" p "\<lambda>x v. if exceeds ms msp x then fadd v (Fin 1) else v"]
  by (simp add: count_trial_eq)

text \<open>After \<open>k\<close> trials the counter at \<open>j\<close> holds the number of trials that exceeded.\<close>

lemma counters_after_trials:
  assumes "\<forall>i < k. length (msp i) = length ms"
  shows "length (fold (\<lambda>i p. count_trial ms (msp i) p) [0..<k] (replicate (length ms) (Fin 0))) = length ms \<and>
         (\<forall>j < length ms.
            fold (\<lambda>i p. count_trial ms (msp i) p) [0..<k] (replicate (length ms) (Fin 0)) ! j
              = Fin (real (length (filter (\<lambda>i. exceeds ms (msp i) j) [0..<k]))))"
  using assms
proof (induction k)
  case 0
  then show ?case by simp
next
  case (Suc k)
  let ?p = "fold (\<lambda>i p. count_trial ms (msp i) p) [0..<k] (replicate (length ms) (Fin 0))"
  from Suc have len: "length ?p = length ms"
    and nth: "\<And>j. j < length ms \<Longrightarrow> ?p ! j = Fin (real (length (filter (\<lambda>i. exceeds ms (msp i) j) [0..<k])))"
    by simp_all
  from Suc.prems have lk: "length (msp k) = length ms" by simp
  show ?case
    by (auto simp: len nth lk length_count_trial nth_count_trial)
qed

text \<open>The number of trials, among the first \<open>k\<close>, that count at index \<open>j\<close>.\<close>

text \<open>The draws used in the examples below: rotations, which are permutations.\<close>

lemma mset_rotate_eq: "mset (rotate n xs) = mset xs"
proof -
  have "mset (rotate n xs)
      = mset (drop (n mod length xs) xs) + mset (take (n mod length xs) xs)"
    by (simp add: rotate_drop_take)
  also have "\<dots> = mset (take (n mod length xs) xs @ drop (n mod length xs) xs)"
    by (simp only: mset_append union_commute)
  finally show ?thesis by simp
qed

lemma permuted_length:
  "mset (permutation i zs) = mset zs \<Longrightarrow>
   length (get_mean_shift_series (permutation i zs) c) = length (get_mean_shift_series zs c)"
  using mset_eq_length [of "permutation i zs" zs] by simp

lemma get_p_value_series_Inr:
  assumes "\<forall>i < nat n. mset (permutation i zs) = mset zs"
  shows "\<exists>p. get_p_value_series permutation word (get_mean_shift_series zs c) n zs c = Inr p \<and>
           length p = length zs - 1 \<and>
           (\<forall>j < length zs - 1.
              p ! j = fdiv (Fin (real (length (filter
                         (\<lambda>i. exceeds (get_mean_shift_series zs c)
                                 (get_mean_shift_series (permutation i zs) c) j) [0..<nat n]))))
                       (Fin (real_of_int n)))"
proof -
  let ?ms = "get_mean_shift_series zs c"
  let ?msp = "\<lambda>i. get_mean_shift_series (permutation i zs) c"
  have len: "\<forall>i < nat n. length (?msp i) = length ?ms"
    using assms permuted_length [of permutation _ zs c] by blast
  then have noerr: "\<not> list_ex (\<lambda>i. length ?ms < length (?msp i)) [0..<nat n]"
    by (auto simp: list_ex_iff)
  from counters_after_trials [OF len]
  have cl: "length (fold (\<lambda>i p. count_trial ?ms (?msp i) p) [0..<nat n] (replicate (length ?ms) (Fin 0))) = length ?ms"
    and cn: "\<And>j. j < length ?ms \<Longrightarrow>
       fold (\<lambda>i p. count_trial ?ms (?msp i) p) [0..<nat n] (replicate (length ?ms) (Fin 0)) ! j
         = Fin (real (length (filter (\<lambda>i. exceeds ?ms (?msp i) j) [0..<nat n])))"
    by blast+
  show ?thesis
    unfolding get_p_value_series_def using noerr cl cn
    by simp
qed

text \<open>
  Claim C1. For every word, every series \<open>zs\<close> (so every non-empty compacted series),
  every comparison policy and every sample count \<open>N \<ge> 1\<close>, with \<open>N\<close> draws that are
  permutations of the series: the permutation test returns one p-value for each split
  index \<open>j\<close>, the number of draws whose mean-shift at \<open>j\<close> is strictly greater than the
  original mean-shift at \<open>j\<close>, divided by \<open>N\<close>; where the original mean-shift at \<open>j\<close> is
  NaN every draw counts and the p-value is 1.
\<close>

theorem p_value_is_fraction_exceeding:
  assumes "1 \<le> n_samples"
    and "\<forall>i < nat n_samples. mset (permutation i zs) = mset zs"
  shows "\<exists>p. get_p_value_series permutation word (get_mean_shift_series zs compare_to)
                n_samples zs compare_to = Inr p \<and>
           length p = length zs - 1 \<and>
           (\<forall>j < length zs - 1.
              p ! j =
                (if isnan (get_mean_shift_series zs compare_to ! j) then Fin 1
                 else Fin (real (length (filter
                        (\<lambda>i. fgreater (get_mean_shift_series (permutation i zs) compare_to ! j)
                                (get_mean_shift_series zs compare_to ! j))
                        [0..<nat n_samples]))
                      / real_of_int n_samples)))"
proof -
  from get_p_value_series_Inr [of n_samples permutation zs word compare_to] assms(2)
  obtain p where p: "get_p_value_series permutation word (get_mean_shift_series zs compare_to)
                n_samples zs compare_to = Inr p" "length p = length zs - 1"
    and nth: "\<And>j. j < length zs - 1 \<Longrightarrow>
              p ! j = fdiv (Fin (real (length (filter
                         (\<lambda>i. exceeds (get_mean_shift_series zs compare_to)
                                 (get_mean_shift_series (permutation i zs) compare_to) j) [0..<nat n_samples]))))
                       (Fin (real_of_int n_samples))"
    by blast
  have "p ! j =
                (if isnan (get_mean_shift_series zs compare_to ! j) then Fin 1
                 else Fin (real (length (filter
                        (\<lambda>i. fgreater (get_mean_shift_series (permutation i zs) compare_to ! j)
                                (get_mean_shift_series zs compare_to ! j))
                        [0..<nat n_samples]))
                      / real_of_int n_samples))" if j: "j < length zs - 1" for j
  proof (cases "isnan (get_mean_shift_series zs compare_to ! j)")
    case True
    then have "filter (\<lambda>i. exceeds (get_mean_shift_series zs compare_to)
                                 (get_mean_shift_series (permutation i zs) compare_to) j) [0..<nat n_samples]
        = [0..<nat n_samples]"
      by (simp add: exceeds_def)
    with True assms(1) show ?thesis by (simp add: nth [OF j])
  next
    case False
    then have "(\<lambda>i. exceeds (get_mean_shift_series zs compare_to)
                                 (get_mean_shift_series (permutation i zs) compare_to) j)
       = (\<lambda>i. fgreater (get_mean_shift_series (permutation i zs) compare_to ! j)
                                (get_mean_shift_series zs compare_to ! j))"
      by (simp add: exceeds_def fun_eq_iff)
    with False assms(1) show ?thesis by (simp add: nth [OF j])
  qed
  with p show ?thesis by blast
qed

theorem p_value_is_fraction_exceeding_witness:
  "(1::int) \<le> 3 \<and>
   get_p_value_series (\<lambda>i. rotate i) ''cat'' (get_mean_shift_series [Fin 1, Fin 2, Fin 4] ''last'')
       3 [Fin 1, Fin 2, Fin 4] ''last'' = Inr [Fin (2 / 3), Fin (2 / 3)] \<and>
   Fin (real (length (filter
          (\<lambda>i. fgreater (get_mean_shift_series (rotate i [Fin 1, Fin 2, Fin 4]) ''last'' ! 0)
                  (get_mean_shift_series [Fin 1, Fin 2, Fin 4] ''last'' ! 0))
          [0..<nat 3])) / real_of_int 3) = Fin (2 / 3)"
proof -
  have ev: "get_p_value_series (\<lambda>i. rotate i) ''cat''
       (get_mean_shift_series [Fin 1, Fin 2, Fin 4] ''last'') 3 [Fin 1, Fin 2, Fin 4] ''last''
      = Inr [Fin (2 / 3), Fin (2 / 3)]"
    by code_simp
  have ms: "get_mean_shift_series [Fin 1, Fin 2, Fin 4] ''last'' = [Fin (- 2), Fin (- 5 / 2)]"
    by code_simp
  have h: "\<forall>i < nat 3. mset (rotate i [Fin 1, Fin 2, Fin 4]) = mset [Fin 1, Fin 2, Fin 4]"
    by (simp only: mset_rotate_eq) simp
  from p_value_is_fraction_exceeding
         [of 3 "\<lambda>i. rotate i" "[Fin 1, Fin 2, Fin 4]" "''cat''" "''last''"] h
  have "[Fin (2 / 3), Fin (2 / 3)] ! 0 =
      Fin (real (length (filter
          (\<lambda>i. fgreater (get_mean_shift_series (rotate i [Fin 1, Fin 2, Fin 4]) ''last'' ! 0)
                  (get_mean_shift_series [Fin 1, Fin 2, Fin 4] ''last'' ! 0))
          [0..<nat 3])) / real_of_int 3)"
    unfolding ev by (auto simp: ms)
  with ev show ?thesis by simp
qed

text \<open>
  Claim C7, as the code has it. With \<open>N = 0\<close> no trial is run and every counter, still
  zero, is divided by zero: the p-value at every split index is NaN, not 0.
\<close>

theorem p_value_nan_without_samples:
  "get_p_value_series permutation word (get_mean_shift_series zs compare_to) 0 zs compare_to
     = Inr (replicate (length zs - 1) NaN)"
  by (simp add: get_p_value_series_def inf_sign_def)

theorem p_value_zero_samples_counterexample:
  "get_p_value_series (\<lambda>i. rotate i) ''cat'' (get_mean_shift_series [Fin 1, Fin 2] ''last'') 0
      [Fin 1, Fin 2] ''last'' = Inr [NaN] \<and>
   get_p_value_series (\<lambda>i. rotate i) ''cat'' (get_mean_shift_series [Fin 1, Fin 2] ''last'') 0
      [Fin 1, Fin 2] ''last'' \<noteq> Inr [Fin 0]"
  by code_simp

section \<open>The magnitude gate\<close>

lemma gated_p_value_series_Inr:
  assumes "\<forall>i < nat n. mset (permutation i (compacted zs)) = mset (compacted zs)"
  shows "\<exists>p. get_p_value_series permutation word
                (get_mean_shift_series (compacted zs) c) n (compacted zs) c = Inr p \<and>
              gated_p_value_series permutation word zs n gamma c
                = Inr (magnitude_gate (compacted zs) gamma p) \<and>
              length p = length (compacted zs) - 1 \<and>
              (\<forall>j < length (compacted zs) - 1.
                 p ! j = fdiv (Fin (real (length (filter
                         (\<lambda>i. exceeds (get_mean_shift_series (compacted zs) c)
                                 (get_mean_shift_series (permutation i (compacted zs)) c) j)
                         [0..<nat n]))))
                       (Fin (real_of_int n)))"
proof -
  from get_p_value_series_Inr [of n permutation "compacted zs" word c] assms
  obtain p where p: "get_p_value_series permutation word
                (get_mean_shift_series (compacted zs) c) n (compacted zs) c = Inr p"
     "length p = length (compacted zs) - 1"
     "\<forall>j < length (compacted zs) - 1.
                 p ! j = fdiv (Fin (real (length (filter
                         (\<lambda>i. exceeds (get_mean_shift_series (compacted zs) c)
                                 (get_mean_shift_series (permutation i (compacted zs)) c) j)
                         [0..<nat n]))))
                       (Fin (real_of_int n))"
    by blast
  then have "gated_p_value_series permutation word zs n gamma c
                = Inr (magnitude_gate (compacted zs) gamma p)"
    by (simp add: gated_p_value_series_def)
  with p show ?thesis by blast
qed

lemma fless_fge_trans: "fless z g1 \<Longrightarrow> fge g2 g1 \<Longrightarrow> fless z g2"
  by (cases z; cases g1; cases g2) (auto simp: fge_def)

lemma fge_refl_Fin: "fge (Fin x) (Fin x)"
  by (simp add: fge_def)

lemma p_value_in_unit_interval:
  assumes "n \<noteq> 0" "c \<le> nat n"
  shows "\<exists>q. fdiv (Fin (real c)) (Fin (real_of_int n)) = Fin q \<and> 0 \<le> q \<and> q \<le> 1"
proof (cases "0 < n")
  case True
  with assms(2) have "real c \<le> real_of_int n" by linarith
  with True show ?thesis by (simp add: divide_le_eq)
next
  case False
  with assms have "c = 0" by simp
  with assms(1) show ?thesis by simp
qed

text \<open>
  Claim C8. For every word, with draws that are permutations: the detector computes the
  p-value series \<open>p\<close> and then the gated series \<open>g\<close> of the same length, and at every
  split index \<open>j\<close> the gated p-value is 1 when the z-score at \<open>j\<close> itself (not its
  absolute value) is strictly below the gamma threshold, and is the p-value \<open>p ! j\<close>
  unchanged otherwise.
\<close>

theorem gate_forces_one_below_gamma:
  assumes "\<forall>i < nat n_samples. mset (permutation i (compacted zs)) = mset (compacted zs)"
  shows "\<exists>p g. get_p_value_series permutation word
                  (get_mean_shift_series (compacted zs) compare_to) n_samples (compacted zs)
                  compare_to = Inr p \<and>
               gated_p_value_series permutation word zs n_samples gamma_threshold compare_to
                 = Inr g \<and>
               length g = length p \<and>
               (\<forall>j < length p.
                  g ! j = (if fless (compacted zs ! j) gamma_threshold then Fin 1 else p ! j))"
proof -
  from gated_p_value_series_Inr [of n_samples permutation zs word compare_to gamma_threshold] assms
  obtain p where p: "get_p_value_series permutation word
                (get_mean_shift_series (compacted zs) compare_to) n_samples (compacted zs) compare_to = Inr p"
     "gated_p_value_series permutation word zs n_samples gamma_threshold compare_to
                = Inr (magnitude_gate (compacted zs) gamma_threshold p)"
    by blast
  then show ?thesis
    by (auto simp: nth_magnitude_gate)
qed

theorem gate_forces_one_below_gamma_witness:
  "get_p_value_series (\<lambda>i. rotate i) ''cat''
       (get_mean_shift_series (compacted [Some (Fin 1), None, Some (Fin 2), Some (Fin 4)]) ''last'') 3 (compacted [Some (Fin 1), None, Some (Fin 2), Some (Fin 4)]) ''last''
     = Inr [Fin (2 / 3), Fin (2 / 3)] \<and>
   gated_p_value_series (\<lambda>i. rotate i) ''cat'' [Some (Fin 1), None, Some (Fin 2), Some (Fin 4)] 3 (Fin 2) ''last'' = Inr [Fin 1, Fin (2 / 3)] \<and>
   [Fin 1, Fin (2 / 3)] ! 0 =
     (if fless (compacted [Some (Fin 1), None, Some (Fin 2), Some (Fin 4)] ! 0) (Fin 2) then Fin 1 else [Fin (2 / 3), Fin (2 / 3)] ! 0) \<and>
   fless (compacted [Some (Fin 1), None, Some (Fin 2), Some (Fin 4)] ! 0) (Fin 2)"
proof -
  have ev: "get_p_value_series (\<lambda>i. rotate i) ''cat''
       (get_mean_shift_series (compacted [Some (Fin 1), None, Some (Fin 2), Some (Fin 4)]) ''last'') 3 (compacted [Some (Fin 1), None, Some (Fin 2), Some (Fin 4)]) ''last''
     = Inr [Fin (2 / 3), Fin (2 / 3)]"
    "gated_p_value_series (\<lambda>i. rotate i) ''cat'' [Some (Fin 1), None, Some (Fin 2), Some (Fin 4)] 3 (Fin 2) ''last''
     = Inr [Fin 1, Fin (2 / 3)]"
    by code_simp+
  have lt: "fless (compacted [Some (Fin 1), None, Some (Fin 2), Some (Fin 4)] ! 0) (Fin 2)"
    by code_simp
  have h: "\<forall>i < nat 3. mset (rotate i (compacted [Some (Fin 1), None, Some (Fin 2), Some (Fin 4)])) = mset (compacted [Some (Fin 1), None, Some (Fin 2), Some (Fin 4)])"
    by (simp only: mset_rotate_eq) simp
  from gate_forces_one_below_gamma [of 3 "\<lambda>i. rotate i" "[Some (Fin 1), None, Some (Fin 2), Some (Fin 4)]" "''cat''" "''last''" "Fin 2"] h
  have "[Fin 1, Fin (2 / 3)] ! 0 =
     (if fless (compacted [Some (Fin 1), None, Some (Fin 2), Some (Fin 4)] ! 0) (Fin 2) then Fin 1 else [Fin (2 / 3), Fin (2 / 3)] ! 0)"
    unfolding ev by (auto simp: lt)
  with ev lt show ?thesis by simp
qed

text \<open>
  Claim C9, as the code has it. For every word, every series, every sample count
  \<open>N \<noteq> 0\<close> and every fixed sequence of draws that are permutations: if
  \<open>gamma2 \<ge> gamma1\<close> then at every split index the gated p-value under \<open>gamma2\<close> is
  greater than or equal to the gated p-value under \<open>gamma1\<close>, and both are greater
  than or equal to the p-value before the gate. With \<open>N = 0\<close> the p-values are NaN,
  which is not greater than or equal to anything.
\<close>

theorem gate_monotone_in_gamma:
  assumes "n_samples \<noteq> 0"
    and "\<forall>i < nat n_samples. mset (permutation i (compacted zs)) = mset (compacted zs)"
    and "fge gamma2 gamma1"
  shows "\<exists>p g1 g2.
           get_p_value_series permutation word
               (get_mean_shift_series (compacted zs) compare_to) n_samples (compacted zs)
               compare_to = Inr p \<and>
           gated_p_value_series permutation word zs n_samples gamma1 compare_to = Inr g1 \<and>
           gated_p_value_series permutation word zs n_samples gamma2 compare_to = Inr g2 \<and>
           length g1 = length p \<and> length g2 = length p \<and>
           (\<forall>j < length p.
              fge (g2 ! j) (g1 ! j) \<and> fge (g1 ! j) (p ! j) \<and> fge (g2 ! j) (p ! j))"
proof -
  let ?z = "compacted zs"
  let ?cnt = "\<lambda>j. length (filter
                         (\<lambda>i. exceeds (get_mean_shift_series ?z compare_to)
                                 (get_mean_shift_series (permutation i ?z) compare_to) j)
                         [0..<nat n_samples])"
  from get_p_value_series_Inr [of n_samples permutation ?z word compare_to] assms(2)
  obtain p where p: "get_p_value_series permutation word
                (get_mean_shift_series ?z compare_to) n_samples ?z compare_to = Inr p"
     and len: "length p = length ?z - 1"
     and nth: "\<And>j. j < length ?z - 1 \<Longrightarrow>
                 p ! j = fdiv (Fin (real (?cnt j))) (Fin (real_of_int n_samples))"
    by blast
  have g: "gated_p_value_series permutation word zs n_samples g compare_to
                = Inr (magnitude_gate ?z g p)" for g
    using p by (simp add: gated_p_value_series_def)
  have unit: "\<exists>q. p ! j = Fin q \<and> 0 \<le> q \<and> q \<le> 1" if "j < length p" for j
  proof -
    have "?cnt j \<le> nat n_samples"
      using length_filter_le [of _ "[0..<nat n_samples]"] by simp
    from p_value_in_unit_interval [OF assms(1) this] nth [of j] that len
    show ?thesis by simp
  qed
  have "fge (magnitude_gate ?z gamma2 p ! j) (magnitude_gate ?z gamma1 p ! j) \<and>
        fge (magnitude_gate ?z gamma1 p ! j) (p ! j) \<and>
        fge (magnitude_gate ?z gamma2 p ! j) (p ! j)" if j: "j < length p" for j
  proof -
    from unit [OF j] obtain q where q: "p ! j = Fin q" "0 \<le> q" "q \<le> 1" by blast
    show ?thesis
      using q fless_fge_trans [OF _ assms(3), of "?z ! j"]
      by (auto simp: nth_magnitude_gate j fge_def)
  qed
  with p g show ?thesis by simp
qed

theorem gate_monotone_in_gamma_witness:
  "(3::int) \<noteq> 0 \<and> fge (Fin 3) (Fin 2) \<and>
   gated_p_value_series (\<lambda>i. rotate i) ''cat'' [Some (Fin 1), None, Some (Fin 2), Some (Fin 4)] 3 (Fin 2) ''last'' = Inr [Fin 1, Fin (2 / 3)] \<and>
   gated_p_value_series (\<lambda>i. rotate i) ''cat'' [Some (Fin 1), None, Some (Fin 2), Some (Fin 4)] 3 (Fin 3) ''last'' = Inr [Fin 1, Fin 1] \<and>
   fge ([Fin 1, Fin 1] ! 1) ([Fin 1, Fin (2 / 3)] ! 1)"
proof -
  have ev: "gated_p_value_series (\<lambda>i. rotate i) ''cat'' [Some (Fin 1), None, Some (Fin 2), Some (Fin 4)] 3 (Fin 2) ''last''
              = Inr [Fin 1, Fin (2 / 3)]"
    "gated_p_value_series (\<lambda>i. rotate i) ''cat'' [Some (Fin 1), None, Some (Fin 2), Some (Fin 4)] 3 (Fin 3) ''last'' = Inr [Fin 1, Fin 1]"
    by code_simp+
  have h: "\<forall>i < nat 3. mset (rotate i (compacted [Some (Fin 1), None, Some (Fin 2), Some (Fin 4)])) = mset (compacted [Some (Fin 1), None, Some (Fin 2), Some (Fin 4)])"
    by (simp only: mset_rotate_eq) simp
  have n: "(3::int) \<noteq> 0" and ge: "fge (Fin 3) (Fin 2)"
    by (simp_all add: fge_def)
  from gate_monotone_in_gamma
         [of 3 "\<lambda>i. rotate i" "[Some (Fin 1), None, Some (Fin 2), Some (Fin 4)]" "Fin 3" "Fin 2" "''cat''" "''last''"] n h ge
  have "fge ([Fin 1, Fin 1] ! 1) ([Fin 1, Fin (2 / 3)] ! 1)"
    unfolding ev by (auto simp: fge_def)
  with ev n ge show ?thesis by simp
qed

theorem gate_monotone_counterexample:
  "fge (Fin 5) (Fin 0) \<and>
   gated_p_value_series (\<lambda>i. rotate i) ''cat'' [Some (Fin 1), Some (Fin 2)] 0 (Fin 0) ''last''
     = Inr [NaN] \<and>
   gated_p_value_series (\<lambda>i. rotate i) ''cat'' [Some (Fin 1), Some (Fin 2)] 0 (Fin 5) ''last''
     = Inr [Fin 1] \<and>
   \<not> fge (Fin 1) NaN"
  by code_simp

section \<open>What the compaction keeps\<close>

text \<open>
  With one label for each entry of the series (as in the main loop, line 367), the
  retained labels and the compacted series are the two components of the same filtered
  list of pairs: they stay index-aligned. The entries kept are the truthy ones.
\<close>

lemma zip_as_map_nth:
  "length xs = length ys \<Longrightarrow> zip xs ys = map (\<lambda>i. (xs ! i, ys ! i)) [0..<length xs]"
  by (rule nth_equalityI) simp_all

lemma notNone_time_slice_labels_zip:
  assumes "length labels = length zs"
  shows "notNone_time_slice_labels labels zs
           = Inr (map fst (filter (\<lambda>(l, z). truthy_opt z) (zip labels zs)))"
proof -
  have "map fst (filter (\<lambda>(l, z). truthy_opt z) (zip labels zs))
      = map (\<lambda>i. labels ! i) (filter (\<lambda>i. truthy_opt (zs ! i)) [0..<length labels])"
    by (simp add: zip_as_map_nth [OF assms] filter_map comp_def)
  with assms show ?thesis by (simp add: notNone_time_slice_labels_def)
qed

lemma compacted_zip:
  assumes "length labels = length zs"
  shows "compacted zs = map (\<lambda>(l, z). the z) (filter (\<lambda>(l, z). truthy_opt z) (zip labels zs))"
proof -
  have "filter truthy_opt zs = map snd (filter (\<lambda>(l, z). truthy_opt z) (zip labels zs))"
    using assms by (induction labels zs rule: list_induct2) auto
  then show ?thesis by (simp add: compacted_def comp_def case_prod_unfold)
qed

lemma length_retained_labels:
  "length (map fst (filter (\<lambda>(l, z). truthy_opt z) (zip labels zs))) = length (compacted zs)"
  if "length labels = length zs"
  by (simp add: compacted_zip [OF that])

text \<open>
  Claim C4 says that the compaction drops exactly the positions whose z-score is
  undefined and keeps every defined z-score, 0.0 included. The code tests the truth
  value of the entry (\<^verbatim>\<open>if z_score_series[i]\<close>, \<^verbatim>\<open>if i\<close>), so a defined z-score
  of 0.0 is dropped like \<^verbatim>\<open>None\<close>, together with its label: the series
  \<open>[1.0, 0.0, None, 2.0]\<close> is compacted to \<open>[1.0, 2.0]\<close>.
\<close>

theorem compaction_drops_zero:
  "compacted [Some (Fin 1), Some (Fin 0), None, Some (Fin 2)] = [Fin 1, Fin 2] \<and>
   notNone_time_slice_labels [''2012_02'', ''2012_03'', ''2012_04'', ''2012_05'']
       [Some (Fin 1), Some (Fin 0), None, Some (Fin 2)] = Inr [''2012_02'', ''2012_05'']"
  by code_simp


section \<open>What the standardizer skips\<close>

text \<open>
  Claim C5 says that the mean and the variance are taken over all defined distances,
  a distance of 0 included, and that every word with a defined distance gets a z-score.
  The code tests the truth value of the distance, so a distance of 0.0 is left out of
  the mean and the variance and its word gets \<^verbatim>\<open>None\<close>: for the distances 0, 1, 3 and
  \<^verbatim>\<open>None\<close> the mean is 2 and the variance 1 (over 1 and 3 only).
\<close>

theorem z_scores_skip_zero_distance:
  "get_z_score_dict [(''a'', Some (Fin 0)), (''b'', Some (Fin 1)), (''c'', Some (Fin 3)), (''d'', None)]
     = [(''a'', None), (''b'', Some (Fin (- 1))), (''c'', Some (Fin 1)), (''d'', None)]"
  by (simp add: get_z_score_dict_def truthy_opt_def truthy_def np_mean_def np_var_def np_sum_def
        fsub_def Let_def)


text \<open>Over all three defined distances the mean and the variance would be these.\<close>

lemma z_scores_not_skipping:
  "np_mean [Fin 0, Fin 1, Fin 3] = Fin (4 / 3) \<and> np_var [Fin 0, Fin 1, Fin 3] = Fin (14 / 9)"
  by (simp add: np_mean_def np_var_def np_sum_def fsub_def Let_def)


section \<open>A series with a single retained entry\<close>

text \<open>
  When the compacted series has one entry, the p-value series is empty, the minimum
  raises ValueError, which is caught, and line 171 reads \<^verbatim>\<open>min_p_val\<close>, which was
  never assigned.
\<close>

lemma np_min_None_iff: "np_min p = None \<longleftrightarrow> p = []"
  by (cases p) simp_all

lemma detect_change_point_single_entry:
  assumes "length labels = length zs" and "length (compacted zs) = 1"
    and "\<forall>i < nat n. mset (permutation i (compacted zs)) = mset (compacted zs)"
  shows "detect_change_point permutation word labels zs n thr gamma c = Inl UnboundLocalError"
proof -
  let ?ls = "map fst (filter (\<lambda>(l, z). truthy_opt z) (zip labels zs))"
  have "length ?ls = 1"
    using length_retained_labels [OF assms(1)] assms(2) by simp
  then have ls: "notNone_time_slice_labels labels zs = Inr ?ls" "?ls \<noteq> []"
    using notNone_time_slice_labels_zip [OF assms(1)] by auto
  from gated_p_value_series_Inr [of n permutation zs word c gamma] assms(3)
  obtain p where p: "gated_p_value_series permutation word zs n gamma c
                = Inr (magnitude_gate (compacted zs) gamma p)" "length p = length (compacted zs) - 1"
    by blast
  with assms(2) have "magnitude_gate (compacted zs) gamma p = []"
    by (simp add: magnitude_gate_def)
  with p ls show ?thesis
    by (simp add: detect_change_point_def select_change_point_def)
qed

text \<open>
  Claim C6 says that for a word whose z-score series has exactly one defined entry the
  detector returns normally with no result. For the series \<open>[1.5, None, None]\<close> the
  detector raises UnboundLocalError, and the loop over the vocabulary, which does not
  catch it, ends with that error although the next word has a complete series.
\<close>

theorem single_entry_raises:
  "detect_change_point (\<lambda>i. rotate i) ''cat'' [''2012_02'', ''2012_03'', ''2012_04'']
       [Some (Fin (3 / 2)), None, None] 1000 (Fin (1 / 20)) (Fin 0) ''last''
     = Inl UnboundLocalError \<and>
   ranked_change_points (\<lambda>w i. rotate i) [''2012_02'', ''2012_03'', ''2012_04'']
       [(''cat'', [Some (Fin (3 / 2)), None, None]),
        (''dog'', [Some (Fin 1), Some (Fin 2), Some (Fin 4)])]
       1000 (Fin (1 / 20)) (Fin 0) ''last'' ''p_value''
     = Inl UnboundLocalError"
proof -
  have c: "length (compacted [Some (Fin (3 / 2)), None, None]) = 1"
    by (simp add: compacted_def truthy_opt_def truthy_def)
  have d: "detect_change_point (\<lambda>i. rotate i) ''cat'' [''2012_02'', ''2012_03'', ''2012_04'']
       [Some (Fin (3 / 2)), None, None] 1000 (Fin (1 / 20)) (Fin 0) ''last''
     = Inl UnboundLocalError"
    by (rule detect_change_point_single_entry) (simp_all add: c mset_rotate_eq del: mset.simps)
  then show ?thesis
    by (simp add: ranked_change_points_def)
qed

section \<open>The selection of the change point\<close>

lemma fless_trans: "fless a b \<Longrightarrow> fless b c \<Longrightarrow> fless a c"
  by (cases a; cases b; cases c) auto

lemma fless_irrefl [simp]: "\<not> fless a a"
  by (cases a) auto

lemma fless_nan [simp]: "\<not> fless a NaN" "\<not> fless NaN a"
  by (cases a; simp)+

lemma fless_linear: "\<not> isnan a \<Longrightarrow> \<not> isnan b \<Longrightarrow> fless a b \<or> a = b \<or> fless b a"
  by (cases a; cases b) auto

text \<open>The minimum of numpy.\<close>

lemma fold_fmin_nan:
  "isnan x \<or> (\<exists>y \<in> set xs. isnan y) \<Longrightarrow> fold (\<lambda>y m. fmin m y) xs x = NaN"
proof (induction xs arbitrary: x)
  case Nil
  then show ?case by (cases x) auto
next
  case (Cons a xs)
  have "isnan (fmin x a) \<or> (\<exists>y \<in> set xs. isnan y)"
    using Cons.prems by (auto simp: fmin_def)
  from Cons.IH [OF this] show ?case by simp
qed

lemma fold_fmin_least:
  assumes "\<not> isnan x" "\<forall>y \<in> set xs. \<not> isnan y"
  shows "fold (\<lambda>y m. fmin m y) xs x \<in> set (x # xs) \<and>
         (\<forall>y \<in> set (x # xs). \<not> fless y (fold (\<lambda>y m. fmin m y) xs x))"
  using assms
proof (induction xs arbitrary: x)
  case Nil
  then show ?case by simp
next
  case (Cons a xs)
  let ?b = "fmin x a"
  let ?m = "fold (\<lambda>y m. fmin m y) xs ?b"
  from Cons.prems have na: "\<not> isnan a" and nx: "\<not> isnan x" by simp_all
  then have b: "?b = (if fless a x then a else x)" by (simp add: fmin_def)
  then have nb: "\<not> isnan ?b" using na nx by simp
  from Cons.IH [OF nb] Cons.prems
  have mem: "?m \<in> set (?b # xs)" and least: "\<forall>y \<in> set (?b # xs). \<not> fless y ?m"
    by simp_all
  have nm: "\<not> isnan ?m" using mem nb Cons.prems by auto
  have bm: "\<not> fless ?b ?m" using least by simp
  have "\<not> fless x ?m"
  proof (cases "fless a x")
    case True
    with b bm have "\<not> fless a ?m" by simp
    with True show ?thesis using fless_trans by blast
  next
    case False
    with b bm show ?thesis by simp
  qed
  moreover have "\<not> fless a ?m"
  proof (cases "fless a x")
    case True
    with b bm show ?thesis by simp
  next
    case False
    with b bm have xm: "\<not> fless x ?m" by simp
    show ?thesis
    proof
      assume am: "fless a ?m"
      from fless_linear [OF nx nm] xm have "x = ?m \<or> fless ?m x" by blast
      with am have "fless a x" using fless_trans [of a ?m x] by auto
      with False show False by simp
    qed
  qed
  moreover have "?m \<in> set (x # a # xs)" using mem b by (auto split: if_splits)
  ultimately show ?case using least by simp
qed

lemma np_min_cases:
  assumes "g \<noteq> []"
  shows "\<exists>m. np_min g = Some m \<and>
           (list_ex isnan g \<longrightarrow> m = NaN) \<and>
           (\<not> list_ex isnan g \<longrightarrow> m \<in> set g \<and> (\<forall>x \<in> set g. \<not> fless x m))"
proof -
  from assms obtain x xs where g: "g = x # xs" by (cases g) auto
  show ?thesis
    using fold_fmin_nan [of x xs] fold_fmin_least [of x xs]
    by (auto simp: g list_ex_iff)
qed

text \<open>The maximum of Python with a key.\<close>

lemma py_max_key_mem: "py_max_key key best xs \<in> set (best # xs)"
  by (induction xs arbitrary: best) auto

lemma py_max_key_keeps:
  "\<not> fless (key best) (key y) \<Longrightarrow> \<not> fless (key (py_max_key key best xs)) (key y)"
proof (induction xs arbitrary: best)
  case Nil
  then show ?case by simp
next
  case (Cons x xs)
  have "\<not> fless (key (if fgreater (key x) (key best) then x else best)) (key y)"
    using Cons.prems fless_trans [of "key best" "key x" "key y"] by (auto simp: fgreater_def)
  from Cons.IH [OF this] show ?case by simp
qed

lemma py_max_key_greatest:
  "y \<in> set (best # xs) \<Longrightarrow> \<not> fless (key (py_max_key key best xs)) (key y)"
proof (induction xs arbitrary: best)
  case Nil
  then show ?case by simp
next
  case (Cons x xs)
  let ?b = "if fgreater (key x) (key best) then x else best"
  from Cons.prems consider "y = best" | "y = x" | "y \<in> set xs" by auto
  then show ?case
  proof cases
    case 1
    then show ?thesis using py_max_key_keeps [of key best y "x # xs"] by simp
  next
    case 2
    have "\<not> fless (key ?b) (key x)" by (simp add: fgreater_def)
    from py_max_key_keeps [of key ?b x xs, OF this] 2 show ?thesis by simp
  next
    case 3
    then have "y \<in> set (?b # xs)" by simp
    from Cons.IH [OF this] show ?thesis by simp
  qed
qed

lemma select_change_point_result:
  assumes m: "np_min g = Some m" and lt: "fless m thr"
    and lz: "length g < length z" and ll: "length g \<le> length ls"
  shows "\<exists>k < length g. feq (g ! k) m \<and>
           (\<forall>i < length g. feq (g ! i) m \<longrightarrow> \<not> fgreater (ms ! i) (ms ! k)) \<and>
           select_change_point word ls z ms g thr
             = Inr (Some (word, ls ! k, m, ms ! k, z ! k))"
proof -
  from m have ne: "g \<noteq> []" by (cases g) auto
  from lt have nm: "\<not> isnan m" by (cases m) auto
  from np_min_cases [OF ne] m nm have "m \<in> set g"
    by (cases "list_ex isnan g") auto
  then obtain i where i: "i < length g" "g ! i = m" by (auto simp: in_set_conv_nth)
  let ?idx = "filter (\<lambda>i. feq (g ! i) m) [0..<length g]"
  from i nm have "i \<in> set ?idx" by (simp add: feq_def)
  then obtain i0 rest where idx: "?idx = i0 # rest" by (cases ?idx) auto
  let ?k = "py_max_key (\<lambda>i. ms ! i) i0 rest"
  have "?k \<in> set ?idx" using py_max_key_mem [of "\<lambda>i. ms ! i" i0 rest] idx by simp
  then have k: "?k < length g" "feq (g ! ?k) m" by simp_all
  have best: "\<not> fgreater (ms ! j) (ms ! ?k)" if "j < length g" "feq (g ! j) m" for j
  proof -
    from that have "j \<in> set (i0 # rest)" using idx [symmetric] by simp
    from py_max_key_greatest [of j i0 rest "\<lambda>i. ms ! i", OF this] show ?thesis
      by (simp add: fgreater_def)
  qed
  have "select_change_point word ls z ms g thr
             = Inr (Some (word, ls ! ?k, m, ms ! ?k, z ! ?k))"
    using m lt idx k lz ll by (simp add: select_change_point_def Let_def)
  with k best show ?thesis by blast
qed

lemma select_change_point_none:
  "np_min g = Some m \<Longrightarrow> \<not> fless m thr \<Longrightarrow> select_change_point word ls z ms g thr = Inr None"
  by (simp add: select_change_point_def)

text \<open>
  Claim C2, as the code has it. For every word whose compacted series has at least two
  entries (so that the gated p-value series is not empty), with one label for each entry
  of the series and draws that are permutations: let \<open>m\<close> be the minimum of the gated
  p-values as numpy computes it (NaN when a p-value is NaN, otherwise a p-value that no
  p-value is less than). If \<open>m\<close> is less than the p-value threshold (a comparison that
  is false when \<open>m\<close> or the threshold is NaN), the detector selects a split index \<open>k\<close>
  tied at \<open>m\<close> such that no index tied at \<open>m\<close> has a greater mean-shift, and emits
  the tuple (word, retained label at \<open>k\<close>, \<open>m\<close>, mean-shift at \<open>k\<close>, z-score at \<open>k\<close>);
  otherwise it emits no result.
\<close>

theorem change_point_selection:
  assumes "length time_slice_labels = length zs"
    and "2 \<le> length (compacted zs)"
    and "\<forall>i < nat n_samples. mset (permutation i (compacted zs)) = mset (compacted zs)"
  shows "\<exists>g m.
           gated_p_value_series permutation word zs n_samples gamma_threshold compare_to = Inr g \<and>
           length g = length (compacted zs) - 1 \<and>
           np_min g = Some m \<and>
           (list_ex isnan g \<longrightarrow> m = NaN) \<and>
           (\<not> list_ex isnan g \<longrightarrow> m \<in> set g \<and> (\<forall>x \<in> set g. \<not> fless x m)) \<and>
           (if fless m p_value_threshold
            then \<exists>k < length g.
                   feq (g ! k) m \<and>
                   (\<forall>i < length g. feq (g ! i) m \<longrightarrow>
                      \<not> fgreater (get_mean_shift_series (compacted zs) compare_to ! i)
                                 (get_mean_shift_series (compacted zs) compare_to ! k)) \<and>
                   detect_change_point permutation word time_slice_labels zs n_samples
                       p_value_threshold gamma_threshold compare_to
                     = Inr (Some (word,
                                  map fst (filter (\<lambda>(l, z). truthy_opt z)
                                             (zip time_slice_labels zs)) ! k,
                                  m,
                                  get_mean_shift_series (compacted zs) compare_to ! k,
                                  compacted zs ! k))
            else detect_change_point permutation word time_slice_labels zs n_samples
                     p_value_threshold gamma_threshold compare_to = Inr None)"
proof -
  let ?z = "compacted zs"
  let ?ms = "get_mean_shift_series ?z compare_to"
  let ?ls = "map fst (filter (\<lambda>(l, z). truthy_opt z) (zip time_slice_labels zs))"
  have len_ls: "length ?ls = length ?z"
    by (rule length_retained_labels [OF assms(1)])
  with assms(2) have ls: "notNone_time_slice_labels time_slice_labels zs = Inr ?ls" "?ls \<noteq> []"
    using notNone_time_slice_labels_zip [OF assms(1)] by auto
  from gated_p_value_series_Inr [of n_samples permutation zs word compare_to gamma_threshold]
    assms(3)
  obtain p where p: "gated_p_value_series permutation word zs n_samples gamma_threshold compare_to
                = Inr (magnitude_gate ?z gamma_threshold p)" "length p = length ?z - 1"
    by blast
  let ?g = "magnitude_gate ?z gamma_threshold p"
  have len_g: "length ?g = length ?z - 1" using p(2) by simp
  have ne: "?g \<noteq> []"
  proof
    assume "?g = []"
    then have "length ?g = 0" by (simp only: list.size)
    with len_g assms(2) show False by linarith
  qed
  from np_min_cases [OF ne] obtain m where m: "np_min ?g = Some m"
    "list_ex isnan ?g \<longrightarrow> m = NaN"
    "\<not> list_ex isnan ?g \<longrightarrow> m \<in> set ?g \<and> (\<forall>x \<in> set ?g. \<not> fless x m)"
    by blast
  have det: "detect_change_point permutation word time_slice_labels zs n_samples
                 p_value_threshold gamma_threshold compare_to
               = select_change_point word ?ls ?z ?ms ?g p_value_threshold"
    using ls p(1) by (simp add: detect_change_point_def)
  have lz: "length ?g < length ?z" and ll: "length ?g \<le> length ?ls"
    using len_g len_ls assms(2) by simp_all
  show ?thesis
  proof (cases "fless m p_value_threshold")
    case True
    from select_change_point_result [OF m(1) True lz ll, of ?ms word]
    show ?thesis using p(1) len_g m True det by auto
  next
    case False
    from select_change_point_none [OF m(1) False, of word ?ls ?z ?ms]
    show ?thesis using p(1) len_g m False det by auto
  qed
qed

theorem change_point_selection_witness:
  "length [''2012_02'', ''2012_03'', ''2012_04'', ''2012_05'']
     = length [Some (Fin 1), None, Some (Fin 2), Some (Fin 4)] \<and>
   2 \<le> length (compacted [Some (Fin 1), None, Some (Fin 2), Some (Fin 4)]) \<and>
   gated_p_value_series (\<lambda>i. rotate i) ''cat'' [Some (Fin 1), None, Some (Fin 2), Some (Fin 4)]
       3 (Fin 0) ''first'' = Inr [Fin 0, Fin 0] \<and>
   get_mean_shift_series (compacted [Some (Fin 1), None, Some (Fin 2), Some (Fin 4)]) ''first''
     = [Fin 2, Fin (5 / 2)] \<and>
   (\<exists>k.
      detect_change_point (\<lambda>i. rotate i) ''cat'' [''2012_02'', ''2012_03'', ''2012_04'', ''2012_05'']
          [Some (Fin 1), None, Some (Fin 2), Some (Fin 4)] 3 (Fin (1 / 2)) (Fin 0) ''first''
        = Inr (Some (''cat'', [''2012_02'', ''2012_04'', ''2012_05''] ! k, Fin 0,
                     [Fin 2, Fin (5 / 2)] ! k, [Fin 1, Fin 2, Fin 4] ! k))) \<and>
   detect_change_point (\<lambda>i. rotate i) ''cat'' [''2012_02'', ''2012_03'', ''2012_04'', ''2012_05'']
       [Some (Fin 1), None, Some (Fin 2), Some (Fin 4)] 3 (Fin (1 / 2)) (Fin 0) ''first''
     = Inr (Some (''cat'', ''2012_04'', Fin 0, Fin (5 / 2), Fin 2))"
proof -
  have c: "compacted [Some (Fin 1), None, Some (Fin 2), Some (Fin 4)] = [Fin 1, Fin 2, Fin 4]"
    by code_simp
  have ls: "map fst (filter (\<lambda>(l, z). truthy_opt z)
              (zip [''2012_02'', ''2012_03'', ''2012_04'', ''2012_05'']
                   [Some (Fin 1), None, Some (Fin 2), Some (Fin 4)]))
            = [''2012_02'', ''2012_04'', ''2012_05'']"
    by code_simp
  have g: "gated_p_value_series (\<lambda>i. rotate i) ''cat''
       [Some (Fin 1), None, Some (Fin 2), Some (Fin 4)] 3 (Fin 0) ''first'' = Inr [Fin 0, Fin 0]"
    by code_simp
  have ms: "get_mean_shift_series [Fin 1, Fin 2, Fin 4] ''first'' = [Fin 2, Fin (5 / 2)]"
    by code_simp
  have d: "detect_change_point (\<lambda>i. rotate i) ''cat''
       [''2012_02'', ''2012_03'', ''2012_04'', ''2012_05'']
       [Some (Fin 1), None, Some (Fin 2), Some (Fin 4)] 3 (Fin (1 / 2)) (Fin 0) ''first''
     = Inr (Some (''cat'', ''2012_04'', Fin 0, Fin (5 / 2), Fin 2))"
    by code_simp
  have h: "\<forall>i < nat 3. mset (rotate i (compacted [Some (Fin 1), None, Some (Fin 2), Some (Fin 4)]))
             = mset (compacted [Some (Fin 1), None, Some (Fin 2), Some (Fin 4)])"
    by (simp only: mset_rotate_eq) simp
  have l1: "length [''2012_02'', ''2012_03'', ''2012_04'', ''2012_05'']
     = length [Some (Fin 1), None, Some (Fin 2), Some (Fin 4)]"
    by simp
  have l2: "2 \<le> length (compacted [Some (Fin 1), None, Some (Fin 2), Some (Fin 4)])"
    by (simp add: c)
  have msc: "get_mean_shift_series
      (compacted [Some (Fin 1), None, Some (Fin 2), Some (Fin 4)]) ''first''
     = [Fin 2, Fin (5 / 2)]"
    by (simp only: c ms)
  from change_point_selection
         [where time_slice_labels = "[''2012_02'', ''2012_03'', ''2012_04'', ''2012_05'']"
            and zs = "[Some (Fin 1), None, Some (Fin 2), Some (Fin 4)]"
            and n_samples = 3 and permutation = "\<lambda>i. rotate i" and word = "''cat''"
            and gamma_threshold = "Fin 0" and compare_to = "''first''"
            and p_value_threshold = "Fin (1 / 2)"] h
  have "\<exists>k.
      detect_change_point (\<lambda>i. rotate i) ''cat'' [''2012_02'', ''2012_03'', ''2012_04'', ''2012_05'']
          [Some (Fin 1), None, Some (Fin 2), Some (Fin 4)] 3 (Fin (1 / 2)) (Fin 0) ''first''
        = Inr (Some (''cat'', [''2012_02'', ''2012_04'', ''2012_05''] ! k, Fin 0,
                     [Fin 2, Fin (5 / 2)] ! k, [Fin 1, Fin 2, Fin 4] ! k))"
    unfolding g ls c ms by (auto simp: fmin_def)
  with l1 l2 g msc d show ?thesis by blast
qed

text \<open>
  The claim as stated fails for a threshold that is NaN (\<^verbatim>\<open>-p nan\<close> is accepted by
  \<^verbatim>\<open>type=float\<close>): the minimum p-value 0 is not greater than or equal to it, and yet
  no result is emitted.
\<close>

theorem change_point_selection_counterexample:
  "gated_p_value_series (\<lambda>i. rotate i) ''cat'' [Some (Fin 1), None, Some (Fin 2), Some (Fin 4)]
       3 (Fin 0) ''first'' = Inr [Fin 0, Fin 0] \<and>
   np_min [Fin 0, Fin 0] = Some (Fin 0) \<and>
   \<not> fge (Fin 0) NaN \<and>
   detect_change_point (\<lambda>i. rotate i) ''cat'' [''2012_02'', ''2012_03'', ''2012_04'', ''2012_05'']
       [Some (Fin 1), None, Some (Fin 2), Some (Fin 4)] 3 NaN (Fin 0) ''first'' = Inr None"
  by code_simp

section \<open>Unrecognized option values\<close>

lemma rank_results_fallback:
  assumes "rank_by \<noteq> ''z_score''" and "rank_by \<noteq> ''mean_shift''"
  shows "rank_results rank_by results = rank_results ''p_value'' results"
proof -
  have b: "(''p_value'' = ''z_score'') = False" "(''p_value'' = ''mean_shift'') = False"
    by simp_all
  from assms have c: "(rank_by = ''z_score'') = False" "(rank_by = ''mean_shift'') = False"
    by blast+
  show ?thesis
    unfolding rank_results_def by (simp only: b c if_False)
qed

lemma get_dist_dict_fallback:
  assumes "distance_measure \<noteq> ''cosine''"
  shows "get_dist_dict loaded aligned vocab distance_measure training_mode
        = map (\<lambda>word. (word, if in_reference loaded word \<and> in_model loaded word
                               then Some (measure_semantic_shift_by_neighborhood loaded word)
                               else None)) vocab"
proof -
  from assms have c: "(distance_measure = ''cosine'') = False" by blast
  show ?thesis
    unfolding get_dist_dict_def Let_def by (simp only: c if_False simp_thms)
qed

lemma neighborhood_not_cosine: "''neighborhood'' \<noteq> ''cosine''"
  by simp

text \<open>
  Claim C10, as the code has it. No error is surfaced for an unrecognized option value:
  a rank key that is neither \<^verbatim>\<open>z_score\<close> nor \<^verbatim>\<open>mean_shift\<close> ranks the results exactly
  as \<^verbatim>\<open>p_value\<close> does, and a distance measure that is not \<^verbatim>\<open>cosine\<close> gives exactly
  the distances of \<^verbatim>\<open>neighborhood\<close>, computed on the models as loaded (without
  alignment).
\<close>

theorem unknown_options_fall_back:
  "(rank_by \<noteq> ''z_score'' \<and> rank_by \<noteq> ''mean_shift'' \<longrightarrow>
      rank_results rank_by results = rank_results ''p_value'' results \<and>
      ranked_change_points permutation labels series n_samples p_value_threshold
          gamma_threshold compare_to rank_by
        = ranked_change_points permutation labels series n_samples p_value_threshold
            gamma_threshold compare_to ''p_value'') \<and>
   (distance_measure \<noteq> ''cosine'' \<longrightarrow>
      get_dist_dict loaded aligned vocab distance_measure training_mode
        = get_dist_dict loaded aligned vocab ''neighborhood'' training_mode \<and>
      get_dist_dict loaded aligned vocab distance_measure training_mode
        = map (\<lambda>word. (word, if in_reference loaded word \<and> in_model loaded word
                               then Some (measure_semantic_shift_by_neighborhood loaded word)
                               else None)) vocab)"
proof (intro conjI impI)
  assume "rank_by \<noteq> ''z_score'' \<and> rank_by \<noteq> ''mean_shift''"
  then have a: "rank_by \<noteq> ''z_score''" "rank_by \<noteq> ''mean_shift''"
    by blast+
  show "rank_results rank_by results = rank_results ''p_value'' results"
    by (rule rank_results_fallback [OF a])
  show "ranked_change_points permutation labels series n_samples p_value_threshold
          gamma_threshold compare_to rank_by
        = ranked_change_points permutation labels series n_samples p_value_threshold
            gamma_threshold compare_to ''p_value''"
    by (simp only: ranked_change_points_def rank_results_fallback [OF a])
next
  assume a: "distance_measure \<noteq> ''cosine''"
  show "get_dist_dict loaded aligned vocab distance_measure training_mode
        = get_dist_dict loaded aligned vocab ''neighborhood'' training_mode"
    by (simp only: get_dist_dict_fallback [OF a] get_dist_dict_fallback [OF neighborhood_not_cosine])
  show "get_dist_dict loaded aligned vocab distance_measure training_mode
        = map (\<lambda>word. (word, if in_reference loaded word \<and> in_model loaded word
                               then Some (measure_semantic_shift_by_neighborhood loaded word)
                               else None)) vocab"
    by (rule get_dist_dict_fallback [OF a])
qed

theorem unknown_options_fall_back_witness:
  "''bogus'' \<noteq> ''z_score'' \<and> ''bogus'' \<noteq> ''mean_shift'' \<and> ''bogus'' \<noteq> ''cosine'' \<and>
   rank_results ''bogus''
       [(''cat'', ''2012_04'', Fin (1 / 3), Fin 1, Fin 2), (''dog'', ''2012_05'', Fin 0, Fin 2, Fin 1)]
     = rank_results ''p_value''
       [(''cat'', ''2012_04'', Fin (1 / 3), Fin 1, Fin 2), (''dog'', ''2012_05'', Fin 0, Fin 2, Fin 1)] \<and>
   rank_results ''p_value''
       [(''cat'', ''2012_04'', Fin (1 / 3), Fin 1, Fin 2), (''dog'', ''2012_05'', Fin 0, Fin 2, Fin 1)]
     = [(''dog'', ''2012_05'', Fin 0, Fin 2, Fin 1), (''cat'', ''2012_04'', Fin (1 / 3), Fin 1, Fin 2)] \<and>
   get_dist_dict
       \<lparr>in_reference = (\<lambda>w. True), in_model = (\<lambda>w. w = ''cat''), cosine = (\<lambda>w. Fin 1),
        measure_semantic_shift_by_neighborhood = (\<lambda>w. Fin 2)\<rparr>
       \<lparr>in_reference = (\<lambda>w. True), in_model = (\<lambda>w. w = ''cat''), cosine = (\<lambda>w. Fin 3),
        measure_semantic_shift_by_neighborhood = (\<lambda>w. Fin 4)\<rparr>
       [''cat'', ''dog''] ''bogus'' ''independent''
     = get_dist_dict
       \<lparr>in_reference = (\<lambda>w. True), in_model = (\<lambda>w. w = ''cat''), cosine = (\<lambda>w. Fin 1),
        measure_semantic_shift_by_neighborhood = (\<lambda>w. Fin 2)\<rparr>
       \<lparr>in_reference = (\<lambda>w. True), in_model = (\<lambda>w. w = ''cat''), cosine = (\<lambda>w. Fin 3),
        measure_semantic_shift_by_neighborhood = (\<lambda>w. Fin 4)\<rparr>
       [''cat'', ''dog''] ''neighborhood'' ''independent''"
proof -
  have ne: "''bogus'' \<noteq> ''z_score'' \<and> ''bogus'' \<noteq> ''mean_shift''" "''bogus'' \<noteq> ''cosine''"
    by simp_all
  have r: "rank_results ''p_value''
       [(''cat'', ''2012_04'', Fin (1 / 3), Fin 1, Fin 2), (''dog'', ''2012_05'', Fin 0, Fin 2, Fin 1)]
     = [(''dog'', ''2012_05'', Fin 0, Fin 2, Fin 1), (''cat'', ''2012_04'', Fin (1 / 3), Fin 1, Fin 2)]"
    by code_simp
  note inst = unknown_options_fall_back
         [where rank_by = "''bogus''" and distance_measure = "''bogus''"
            and results = "[(''cat'', ''2012_04'', Fin (1 / 3), Fin 1, Fin 2),
                            (''dog'', ''2012_05'', Fin 0, Fin 2, Fin 1)]"
            and loaded = "\<lparr>in_reference = (\<lambda>w. True), in_model = (\<lambda>w. w = ''cat''),
                            cosine = (\<lambda>w. Fin 1),
                            measure_semantic_shift_by_neighborhood = (\<lambda>w. Fin 2)\<rparr>"
            and aligned = "\<lparr>in_reference = (\<lambda>w. True), in_model = (\<lambda>w. w = ''cat''),
                            cosine = (\<lambda>w. Fin 3),
                            measure_semantic_shift_by_neighborhood = (\<lambda>w. Fin 4)\<rparr>"
            and vocab = "[''cat'', ''dog'']" and training_mode = "''independent''"]
  from inst ne(1) have a: "rank_results ''bogus''
       [(''cat'', ''2012_04'', Fin (1 / 3), Fin 1, Fin 2), (''dog'', ''2012_05'', Fin 0, Fin 2, Fin 1)]
     = rank_results ''p_value''
       [(''cat'', ''2012_04'', Fin (1 / 3), Fin 1, Fin 2), (''dog'', ''2012_05'', Fin 0, Fin 2, Fin 1)]"
    by blast
  from inst ne(2) have b: "get_dist_dict
       \<lparr>in_reference = (\<lambda>w. True), in_model = (\<lambda>w. w = ''cat''), cosine = (\<lambda>w. Fin 1),
        measure_semantic_shift_by_neighborhood = (\<lambda>w. Fin 2)\<rparr>
       \<lparr>in_reference = (\<lambda>w. True), in_model = (\<lambda>w. w = ''cat''), cosine = (\<lambda>w. Fin 3),
        measure_semantic_shift_by_neighborhood = (\<lambda>w. Fin 4)\<rparr>
       [''cat'', ''dog''] ''bogus'' ''independent''
     = get_dist_dict
       \<lparr>in_reference = (\<lambda>w. True), in_model = (\<lambda>w. w = ''cat''), cosine = (\<lambda>w. Fin 1),
        measure_semantic_shift_by_neighborhood = (\<lambda>w. Fin 2)\<rparr>
       \<lparr>in_reference = (\<lambda>w. True), in_model = (\<lambda>w. w = ''cat''), cosine = (\<lambda>w. Fin 3),
        measure_semantic_shift_by_neighborhood = (\<lambda>w. Fin 4)\<rparr>
       [''cat'', ''dog''] ''neighborhood'' ''independent''"
    by blast
  from ne a r b show ?thesis by blast
qed

text \<open>
  With the rank key and the distance measure \<^verbatim>\<open>bogus\<close> the run returns a ranked result
  and the neighborhood distances: nothing is raised.
\<close>

theorem unknown_options_counterexample:
  "ranked_change_points (\<lambda>w i. rotate i) [''2012_02'', ''2012_03'', ''2012_04'', ''2012_05'']
       [(''cat'', [Some (Fin 1), None, Some (Fin 2), Some (Fin 4)])]
       3 (Fin (1 / 2)) (Fin 0) ''first'' ''bogus''
     = Inr [(''cat'', ''2012_04'', Fin 0, Fin (5 / 2), Fin 2)] \<and>
   get_dist_dict
       \<lparr>in_reference = (\<lambda>w. True), in_model = (\<lambda>w. w = ''cat''), cosine = (\<lambda>w. Fin 1),
        measure_semantic_shift_by_neighborhood = (\<lambda>w. Fin 2)\<rparr>
       \<lparr>in_reference = (\<lambda>w. True), in_model = (\<lambda>w. w = ''cat''), cosine = (\<lambda>w. Fin 3),
        measure_semantic_shift_by_neighborhood = (\<lambda>w. Fin 4)\<rparr>
       [''cat'', ''dog''] ''bogus'' ''independent''
     = [(''cat'', Some (Fin 2)), (''dog'', None)]"
  by code_simp

end
